theory Spec2Isabelle
  imports Main "HOL-Library.Word"
begin

section \<open>espeakup: the speech-command worker (synth.c) and the ALSA callback (alsa.c)\<close>

text \<open>
  A shallow embedding of \<^verbatim>\<open>synth.c\<close> and of \<^verbatim>\<open>alsa_play_callback\<close> from
  \<^verbatim>\<open>alsa.c\<close>. The program state is one record \<open>world\<close> that is passed through every
  function; calls into the espeak engine, calls into the ALSA sink and calls of
  \<^verbatim>\<open>free\<close> are appended to logs held in that record, so that what the code asks of its
  collaborators can be read off the final state. The engine and the sink are parameters:
  the engine answers each call from the history of earlier calls, the sink is a script of
  answers.
\<close>

subsection \<open>Data\<close>

text \<open>
  A C \<^verbatim>\<open>int\<close>: 32 bits, \<open>sint\<close> reads it as signed. C leaves signed overflow
  undefined; the model takes the two's complement result, so arithmetic wraps around.
\<close>

type_synonym c_int = "32 word"

text \<open>A pointer returned by \<^verbatim>\<open>malloc\<close>, as an address.\<close>

type_synonym addr = nat

text \<open>\<^verbatim>\<open>espeak_ERROR\<close> and \<^verbatim>\<open>espeak_PARAMETER\<close> of the engine's \<^verbatim>\<open>speak_lib.h\<close>.\<close>

datatype espeak_ERROR = EE_OK | EE_INTERNAL_ERROR | EE_BUFFER_FULL | EE_NOT_FOUND

datatype espeak_PARAMETER =
  espeakRATE | espeakVOLUME | espeakPITCH | espeakRANGE | espeakPUNCTUATION | espeakCAPITALS

text \<open>
  \<^verbatim>\<open>enum adjust_t\<close>. synth.c tests \<^verbatim>\<open>adj == ADJ_DEC\<close> and \<^verbatim>\<open>adj != ADJ_SET\<close>;
  the remaining mode is the increment.
\<close>

datatype adjust_t = ADJ_DEC | ADJ_SET | ADJ_INC

text \<open>
  \<^verbatim>\<open>enum command_t\<close>: the seven tags that \<^verbatim>\<open>queue_process_entry\<close> names, and
  \<open>CMD_OTHER k\<close> for any other value of the enumeration (its declaration is not part of
  the three source files, and a C enum holds any \<^verbatim>\<open>int\<close>).
\<close>

datatype command_t =
  CMD_SET_FREQUENCY | CMD_SET_PITCH | CMD_SET_PUNCTUATION | CMD_SET_RATE
| CMD_SET_VOICE | CMD_SET_VOLUME | CMD_SPEAK_TEXT | CMD_OTHER nat

text \<open>
  \<^verbatim>\<open>struct synth_t\<close>, with the field \<^verbatim>\<open>punct\<close> that \<^verbatim>\<open>set_punctuation\<close> writes.
\<close>

record synth_t =
  frequency :: c_int
  pitch :: c_int
  punct :: c_int
  rate :: c_int
  voice :: string
  volume :: c_int
  buf :: addr
  len :: c_int

text \<open>
  \<^verbatim>\<open>struct espeak_entry_t\<close>: the fields that synth.c reads. \<^verbatim>\<open>value\<close>, \<^verbatim>\<open>buf\<close>
  and \<^verbatim>\<open>len\<close> carry the prefix \<open>entry_\<close> here, since \<open>buf\<close> and \<open>len\<close> are fields
  of \<open>synth_t\<close> already.
\<close>

record espeak_entry_t =
  cmd :: command_t
  adjust :: adjust_t
  entry_value :: c_int
  entry_buf :: addr
  entry_len :: c_int

text \<open>What the code asks of the engine, in the order asked.\<close>

datatype engine_call =
  Call_SetParameter espeak_PARAMETER c_int c_int
| Call_SetVoiceByName string
| Call_Synth addr c_int
| Call_Cancel

text \<open>What the code asks of the ALSA sink: the calls that change it.\<close>

datatype pcm_call = Pcm_drop | Pcm_prepare | Pcm_writei int int

text \<open>
  The state: \<^verbatim>\<open>*s\<close>, the queue (each element the pointer that \<^verbatim>\<open>queue_peek\<close>
  returns with the entry it points to), the globals \<^verbatim>\<open>stopped\<close>, \<^verbatim>\<open>runner_must_stop\<close>
  and \<^verbatim>\<open>should_run\<close> (C ints used as flags: only 0 and 1 are ever stored), the three
  logs, and the number of times \<^verbatim>\<open>stop_acknowledged\<close> was signalled.
\<close>

record world =
  synth :: synth_t
  queue :: "(addr \<times> espeak_entry_t) list"
  stopped :: bool
  runner_must_stop :: bool
  should_run :: bool
  calls :: "engine_call list"
  frees :: "addr list"
  pcm :: "pcm_call list"
  stop_acknowledged :: nat

subsection \<open>The engine\<close>

text \<open>
  The engine is outside the program: it is a parameter that gives the return code of a
  call from the calls made before it.
\<close>

type_synonym engine = "engine_call list \<Rightarrow> engine_call \<Rightarrow> espeak_ERROR"

definition engine_request :: "engine \<Rightarrow> engine_call \<Rightarrow> world \<Rightarrow> espeak_ERROR \<times> world" where
  "engine_request eng c w = (eng (calls w) c, w\<lparr>calls := calls w @ [c]\<rparr>)"

definition espeak_SetParameter ::
  "engine \<Rightarrow> espeak_PARAMETER \<Rightarrow> c_int \<Rightarrow> c_int \<Rightarrow> world \<Rightarrow> espeak_ERROR \<times> world" where
  "espeak_SetParameter eng p v r w = engine_request eng (Call_SetParameter p v r) w"

definition espeak_SetVoiceByName :: "engine \<Rightarrow> string \<Rightarrow> world \<Rightarrow> espeak_ERROR \<times> world" where
  "espeak_SetVoiceByName eng name w = engine_request eng (Call_SetVoiceByName name) w"

definition espeak_Synth :: "engine \<Rightarrow> addr \<Rightarrow> c_int \<Rightarrow> world \<Rightarrow> espeak_ERROR \<times> world" where
  "espeak_Synth eng text sz w = engine_request eng (Call_Synth text sz) w"

definition espeak_Cancel :: "engine \<Rightarrow> world \<Rightarrow> espeak_ERROR \<times> world" where
  "espeak_Cancel eng w = engine_request eng Call_Cancel w"

subsection \<open>synth.c: multipliers and offsets\<close>

definition frequencyMultiplier :: c_int where "frequencyMultiplier = 11"
definition pitchMultiplier :: c_int where "pitchMultiplier = 11"
definition rateMultiplier :: c_int where "rateMultiplier = 34"
definition rateOffset :: c_int where "rateOffset = 84"
definition volumeMultiplier :: c_int where "volumeMultiplier = 22"

subsection \<open>synth.c: the parameter setters\<close>

definition set_frequency :: "engine \<Rightarrow> world \<Rightarrow> c_int \<Rightarrow> adjust_t \<Rightarrow> espeak_ERROR \<times> world" where
  "set_frequency eng w freq adj =
     (let freq1 = (if adj = ADJ_DEC then - freq else freq);
          freq2 = (if adj \<noteq> ADJ_SET then freq1 + frequency (synth w) else freq1)
      in case espeak_SetParameter eng espeakRANGE (freq2 * frequencyMultiplier) 0 w of
           (rc, w1) \<Rightarrow>
             (rc, if rc = EE_OK then w1\<lparr>synth := (synth w1)\<lparr>frequency := freq2\<rparr>\<rparr> else w1))"

definition set_pitch :: "engine \<Rightarrow> world \<Rightarrow> c_int \<Rightarrow> adjust_t \<Rightarrow> espeak_ERROR \<times> world" where
  "set_pitch eng w p adj =
     (let pitch1 = (if adj = ADJ_DEC then - p else p);
          pitch2 = (if adj \<noteq> ADJ_SET then pitch1 + pitch (synth w) else pitch1)
      in case espeak_SetParameter eng espeakPITCH (pitch2 * pitchMultiplier) 0 w of
           (rc, w1) \<Rightarrow>
             (rc, if rc = EE_OK then w1\<lparr>synth := (synth w1)\<lparr>pitch := pitch2\<rparr>\<rparr> else w1))"

definition set_punctuation :: "engine \<Rightarrow> world \<Rightarrow> c_int \<Rightarrow> adjust_t \<Rightarrow> espeak_ERROR \<times> world" where
  "set_punctuation eng w p adj =
     (let punct1 = (if adj = ADJ_DEC then - p else p);
          punct2 = (if adj \<noteq> ADJ_SET then punct1 + punct (synth w) else punct1)
      in case espeak_SetParameter eng espeakPUNCTUATION punct2 0 w of
           (rc, w1) \<Rightarrow>
             (rc, if rc = EE_OK then w1\<lparr>synth := (synth w1)\<lparr>punct := punct2\<rparr>\<rparr> else w1))"

definition set_rate :: "engine \<Rightarrow> world \<Rightarrow> c_int \<Rightarrow> adjust_t \<Rightarrow> espeak_ERROR \<times> world" where
  "set_rate eng w r adj =
     (let rate1 = (if adj = ADJ_DEC then - r else r);
          rate2 = (if adj \<noteq> ADJ_SET then rate1 + rate (synth w) else rate1)
      in case espeak_SetParameter eng espeakRATE (rate2 * rateMultiplier + rateOffset) 0 w of
           (rc, w1) \<Rightarrow>
             (rc, if rc = EE_OK then w1\<lparr>synth := (synth w1)\<lparr>rate := rate2\<rparr>\<rparr> else w1))"

text \<open>\<^verbatim>\<open>strcpy(s->voice, voice)\<close> stores the name.\<close>

definition set_voice :: "engine \<Rightarrow> world \<Rightarrow> string \<Rightarrow> espeak_ERROR \<times> world" where
  "set_voice eng w name =
     (case espeak_SetVoiceByName eng name w of
        (rc, w1) \<Rightarrow>
          (rc, if rc = EE_OK then w1\<lparr>synth := (synth w1)\<lparr>voice := name\<rparr>\<rparr> else w1))"

definition set_volume :: "engine \<Rightarrow> world \<Rightarrow> c_int \<Rightarrow> adjust_t \<Rightarrow> espeak_ERROR \<times> world" where
  "set_volume eng w vol adj =
     (let vol1 = (if adj = ADJ_DEC then - vol else vol);
          vol2 = (if adj \<noteq> ADJ_SET then vol1 + volume (synth w) else vol1)
      in case espeak_SetParameter eng espeakVOLUME ((vol2 + 1) * volumeMultiplier) 0 w of
           (rc, w1) \<Rightarrow>
             (rc, if rc = EE_OK then w1\<lparr>synth := (synth w1)\<lparr>volume := vol2\<rparr>\<rparr> else w1))"

subsection \<open>synth.c: stopping and speaking\<close>

text \<open>The audio mutex is taken around each write of \<^verbatim>\<open>stopped\<close>; the model is sequential.\<close>

definition stop_speech :: "engine \<Rightarrow> world \<Rightarrow> espeak_ERROR \<times> world" where
  "stop_speech eng w = espeak_Cancel eng (w\<lparr>stopped := True\<rparr>)"

definition speak_text :: "engine \<Rightarrow> world \<Rightarrow> espeak_ERROR \<times> world" where
  "speak_text eng w =
     (let w1 = w\<lparr>stopped := False\<rparr>
      in espeak_Synth eng (buf (synth w1)) (len (synth w1) + 1) w1)"

subsection \<open>The queue\<close>

text \<open>
  Modelled from the spec: \<^verbatim>\<open>queue_peek\<close> and \<^verbatim>\<open>queue_remove\<close> are defined in
  queue.c, which is not among the source files. The spec (4.2) gives a strict FIFO with
  \<open>peekHead\<close>, which returns the head without removing it (nothing when the queue is
  empty), and \<open>removeHead\<close>, which removes exactly the current head.
\<close>

definition queue_peek :: "world \<Rightarrow> (addr \<times> espeak_entry_t) option" where
  "queue_peek w = (case queue w of [] \<Rightarrow> None | current # _ \<Rightarrow> Some current)"

definition queue_remove :: "world \<Rightarrow> world" where
  "queue_remove w = w\<lparr>queue := tl (queue w)\<rparr>"

subsection \<open>synth.c: processing the head of the queue\<close>

text \<open>
  The \<^verbatim>\<open>switch\<close> of \<^verbatim>\<open>queue_process_entry\<close>. The local \<^verbatim>\<open>error\<close> is declared
  without an initial value: the result is \<open>Some rc\<close> when a branch assigns it and \<open>None\<close>
  when the \<^verbatim>\<open>default\<close> branch leaves it unassigned.
\<close>

definition queue_process_entry_switch ::
  "engine \<Rightarrow> world \<Rightarrow> espeak_entry_t \<Rightarrow> espeak_ERROR option \<times> world" where
  "queue_process_entry_switch eng w current =
     (case cmd current of
        CMD_SET_FREQUENCY \<Rightarrow>
          (case set_frequency eng w (entry_value current) (adjust current) of
             (rc, w1) \<Rightarrow> (Some rc, w1))
      | CMD_SET_PITCH \<Rightarrow>
          (case set_pitch eng w (entry_value current) (adjust current) of
             (rc, w1) \<Rightarrow> (Some rc, w1))
      | CMD_SET_PUNCTUATION \<Rightarrow>
          (case set_punctuation eng w (entry_value current) (adjust current) of
             (rc, w1) \<Rightarrow> (Some rc, w1))
      | CMD_SET_RATE \<Rightarrow>
          (case set_rate eng w (entry_value current) (adjust current) of
             (rc, w1) \<Rightarrow> (Some rc, w1))
      | CMD_SET_VOICE \<Rightarrow> (Some EE_OK, w)
      | CMD_SET_VOLUME \<Rightarrow>
          (case set_volume eng w (entry_value current) (adjust current) of
             (rc, w1) \<Rightarrow> (Some rc, w1))
      | CMD_SPEAK_TEXT \<Rightarrow>
          (case speak_text eng
                  (w\<lparr>synth := (synth w)\<lparr>buf := entry_buf current, len := entry_len current\<rparr>\<rparr>) of
             (rc, w1) \<Rightarrow> (Some rc, w1))
      | CMD_OTHER _ \<Rightarrow> (None, w))"

text \<open>
  \<^verbatim>\<open>queue_process_entry\<close>. Reading \<^verbatim>\<open>error\<close> while it is unassigned has no defined
  result in C: the model returns the fault instead of a state.
\<close>

datatype fault = Uninitialized_read

definition queue_process_entry :: "engine \<Rightarrow> world \<Rightarrow> fault + world" where
  "queue_process_entry eng w =
     (case queue_peek w of
        None \<Rightarrow> Inr w
      | Some (p, current) \<Rightarrow>
          (case queue_process_entry_switch eng w current of
             (None, w1) \<Rightarrow> Inl Uninitialized_read
           | (Some error, w1) \<Rightarrow>
               if error = EE_OK then Inr (queue_remove w1) else Inr w1))"

subsection \<open>synth.c: draining the queue\<close>

definition free_entry :: "addr \<times> espeak_entry_t \<Rightarrow> world \<Rightarrow> world" where
  "free_entry entry w =
     (let w1 = (if cmd (snd entry) = CMD_SPEAK_TEXT
                then w\<lparr>frees := frees w @ [entry_buf (snd entry)]\<rparr> else w)
      in w1\<lparr>frees := frees w1 @ [fst entry]\<rparr>)"

function queue_clear :: "world \<Rightarrow> world" where
  "queue_clear w =
     (case queue_peek w of
        None \<Rightarrow> w
      | Some current \<Rightarrow> queue_clear (queue_remove (free_entry current w)))"
  by pat_completeness auto
termination
  by (relation "measure (\<lambda>w. length (queue w))")
     (auto simp: queue_peek_def queue_remove_def free_entry_def Let_def split: list.splits)

declare queue_clear.simps [simp del]

subsection \<open>synth.c: the stop branch of the worker\<close>

text \<open>
  Lines 267 to 272 of \<^verbatim>\<open>espeak_thread\<close>: what the worker does when it finds
  \<^verbatim>\<open>runner_must_stop\<close> set after its inner loop.
\<close>

definition espeak_thread_stop :: "engine \<Rightarrow> world \<Rightarrow> world" where
  "espeak_thread_stop eng w =
     (if runner_must_stop w then
        (let w1 = queue_clear w;
             w2 = snd (stop_speech eng w1);
             w3 = w2\<lparr>runner_must_stop := False\<rparr>
         in w3\<lparr>stop_acknowledged := stop_acknowledged w3 + 1\<rparr>)
      else w)"

subsection \<open>alsa.c: the audio-delivery callback\<close>

text \<open>The states that \<^verbatim>\<open>snd_pcm_status_get_state\<close> reports.\<close>

datatype snd_pcm_state_t =
  SND_PCM_STATE_OPEN | SND_PCM_STATE_SETUP | SND_PCM_STATE_PREPARED | SND_PCM_STATE_RUNNING
| SND_PCM_STATE_XRUN | SND_PCM_STATE_DRAINING | SND_PCM_STATE_PAUSED
| SND_PCM_STATE_SUSPENDED | SND_PCM_STATE_DISCONNECTED

text \<open>
  One pass through the body of the \<^verbatim>\<open>while\<close> loop sees one answer of
  \<^verbatim>\<open>snd_pcm_avail_update\<close> and, when it writes, one answer of \<^verbatim>\<open>snd_pcm_writei\<close>
  (a function of the number of samples offered). \<^verbatim>\<open>stopped\<close> is shared with the
  worker thread, which writes it under the audio mutex and is free to run
  \<^verbatim>\<open>stop_speech\<close> while the callback is in its loop: \<open>stop_arrives\<close> says that
  1 has been stored into \<^verbatim>\<open>stopped\<close> since the previous pass.
\<close>

record pcm_poll =
  stop_arrives :: bool
  avail_update :: int
  writei :: "int \<Rightarrow> int"

definition minimum :: "int \<Rightarrow> int \<Rightarrow> int" where
  "minimum x y = (if x \<le> y then x else y)"

text \<open>
  \<^verbatim>\<open>snd_pcm_avail_update\<close> and \<^verbatim>\<open>snd_pcm_writei\<close> return a \<^verbatim>\<open>long\<close>, which the
  callback stores in an \<^verbatim>\<open>int\<close>: the low 32 bits, read as signed.
\<close>

definition int_of_long :: "int \<Rightarrow> int" where
  "int_of_long x = (x + 2 ^ 31) mod 2 ^ 32 - 2 ^ 31"

text \<open>
  The \<^verbatim>\<open>while (numsamples > 0)\<close> loop. \<open>audio\<close> is the offset of the pointer
  \<^verbatim>\<open>audio\<close> from where it started. The loop polls for as long as the sink reports no
  room or fails: \<open>None\<close> says that it is still polling when the script of answers ends.
  \<^verbatim>\<open>numsamples\<close> is positive where something is subtracted from it and what is
  subtracted is a non-negative \<^verbatim>\<open>int\<close>, so the subtraction stays within the C int.
\<close>

fun alsa_play_loop :: "pcm_poll list \<Rightarrow> world \<Rightarrow> int \<Rightarrow> int \<Rightarrow> world option" where
  "alsa_play_loop [] w numsamples audio = (if numsamples > 0 then None else Some w)"
| "alsa_play_loop (r # rs) w numsamples audio =
     (if numsamples > 0 then
        (let w0 = (if stop_arrives r then w\<lparr>stopped := True\<rparr> else w);
             avail = int_of_long (avail_update r)
         in if avail \<le> 0 then alsa_play_loop rs w0 numsamples audio
            else
              (let avail1 = minimum avail (32 * 2);
                   to_write = minimum avail1 numsamples;
                   samples_written = int_of_long (writei r to_write);
                   w1 = w0\<lparr>pcm := pcm w0 @ [Pcm_writei audio to_write]\<rparr>
               in if samples_written < 0
                  then alsa_play_loop rs (w1\<lparr>pcm := pcm w1 @ [Pcm_prepare]\<rparr>) numsamples audio
                  else alsa_play_loop rs w1 (numsamples - samples_written)
                         (audio + samples_written)))
      else Some w)"

text \<open>
  \<^verbatim>\<open>alsa_play_callback\<close>: \<open>state\<close> is what \<^verbatim>\<open>snd_pcm_status_get_state\<close> reports at
  line 82, \<open>rs\<close> the sink's answers during the loop. The result is the return value
  with the new state.
\<close>

definition alsa_play_callback ::
  "snd_pcm_state_t \<Rightarrow> pcm_poll list \<Rightarrow> world \<Rightarrow> int \<Rightarrow> (int \<times> world) option" where
  "alsa_play_callback state rs w numsamples =
     (if stopped w then Some (1, w\<lparr>pcm := pcm w @ [Pcm_drop], stopped := False\<rparr>)
      else
        (let w1 = (if state \<noteq> SND_PCM_STATE_RUNNING
                   then w\<lparr>pcm := pcm w @ [Pcm_prepare]\<rparr> else w)
         in case alsa_play_loop rs w1 numsamples 0 of
              None \<Rightarrow> None
            | Some w2 \<Rightarrow> Some (0, w2)))"

text \<open>
  Lines 72 to 79 of \<^verbatim>\<open>alsa_play_callback\<close> alone: the section under the audio mutex.
  The result says whether the callback returns 1 at once.
\<close>

definition alsa_play_callback_check :: "world \<Rightarrow> bool \<times> world" where
  "alsa_play_callback_check w =
     (if stopped w then (True, w\<lparr>pcm := pcm w @ [Pcm_drop], stopped := False\<rparr>)
      else (False, w))"

subsection \<open>The stop branch beside the engine's thread\<close>

text \<open>
  The callback runs on the engine's thread while the worker runs its stop branch. The two
  share \<^verbatim>\<open>stopped\<close> only, under the audio mutex, which \<^verbatim>\<open>stop_speech\<close> holds just
  around its store. \<open>checks k\<close> is \<open>k\<close> invocations of the callback taking the mutex for
  their entry section, one after another. What an invocation does after that section
  appends to the sink's log only and is left out here.
\<close>

fun checks :: "nat \<Rightarrow> world \<Rightarrow> world" where
  "checks 0 w = w"
| "checks (Suc k) w = checks k (snd (alsa_play_callback_check w))"

text \<open>
  Lines 267 to 272 of \<^verbatim>\<open>espeak_thread\<close> again, with \<open>j\<close> entry sections of the
  callback before the store of \<^verbatim>\<open>stop_speech\<close>, \<open>k1\<close> between the store and
  \<^verbatim>\<open>espeak_Cancel\<close>, and \<open>k2\<close> between \<^verbatim>\<open>espeak_Cancel\<close> and the signal. The
  worker holds \<^verbatim>\<open>queue_guard\<close> throughout.
\<close>

definition espeak_thread_stop_beside ::
  "engine \<Rightarrow> nat \<Rightarrow> nat \<Rightarrow> nat \<Rightarrow> world \<Rightarrow> world" where
  "espeak_thread_stop_beside eng j k1 k2 w =
     (if runner_must_stop w then
        (let w1 = checks j (queue_clear w);
             w2 = checks k1 (w1\<lparr>stopped := True\<rparr>);
             w3 = checks k2 (snd (espeak_Cancel eng w2));
             w4 = w3\<lparr>runner_must_stop := False\<rparr>
         in w4\<lparr>stop_acknowledged := stop_acknowledged w4 + 1\<rparr>)
      else w)"

subsection \<open>The specification's vocabulary\<close>

text \<open>
  The new logical value as the specification (4.1) words it: the value itself for an
  absolute command, current plus value for an increment, current minus value for a
  decrement.
\<close>

fun logical_value :: "adjust_t \<Rightarrow> c_int \<Rightarrow> c_int \<Rightarrow> c_int" where
  "logical_value ADJ_SET current x = x"
| "logical_value ADJ_INC current x = current + x"
| "logical_value ADJ_DEC current x = current - x"

text \<open>
  The field of \<open>synth_t\<close> that a parameter command sets, as the \<^verbatim>\<open>switch\<close> and the
  setters pair them; \<open>None\<close> for a command that is not a parameter command.
\<close>

fun stored_parameter :: "command_t \<Rightarrow> synth_t \<Rightarrow> c_int option" where
  "stored_parameter CMD_SET_FREQUENCY s = Some (frequency s)"
| "stored_parameter CMD_SET_PITCH s = Some (pitch s)"
| "stored_parameter CMD_SET_PUNCTUATION s = Some (punct s)"
| "stored_parameter CMD_SET_RATE s = Some (rate s)"
| "stored_parameter CMD_SET_VOLUME s = Some (volume s)"
| "stored_parameter c s = None"

text \<open>The addresses that draining one queue element passes to \<^verbatim>\<open>free\<close>, in order.\<close>

definition released :: "addr \<times> espeak_entry_t \<Rightarrow> addr list" where
  "released entry =
     (if cmd (snd entry) = CMD_SPEAK_TEXT then [entry_buf (snd entry)] else []) @ [fst entry]"

text \<open>A script of answers with every arriving stop taken out.\<close>

definition undisturbed :: "pcm_poll list \<Rightarrow> pcm_poll list" where
  "undisturbed rs = map (\<lambda>r. r\<lparr>stop_arrives := False\<rparr>) rs"

text \<open>The sub-chunk sizes of the writes in a sink log.\<close>

fun write_sizes :: "pcm_call list \<Rightarrow> int list" where
  "write_sizes [] = []"
| "write_sizes (Pcm_writei a n # cs) = n # write_sizes cs"
| "write_sizes (c # cs) = write_sizes cs"

subsection \<open>Concrete engines, sinks and states\<close>

text \<open>An engine that accepts every call, and one that rejects every call.\<close>

definition engine_ok :: engine where
  "engine_ok history c = EE_OK"

definition engine_fail :: engine where
  "engine_fail history c = EE_INTERNAL_ERROR"

text \<open>The state after start-up: the default settings of synth.c, nothing queued.\<close>

definition world0 :: world where
  "world0 =
     \<lparr>synth = \<lparr>frequency = 5, pitch = 5, punct = 0, rate = 5, voice = ''default'',
               volume = 5, buf = 0, len = 0\<rparr>,
      queue = [], stopped = False, runner_must_stop = False, should_run = True,
      calls = [], frees = [], pcm = [], stop_acknowledged = 0\<rparr>"

definition entry :: "command_t \<Rightarrow> adjust_t \<Rightarrow> c_int \<Rightarrow> addr \<Rightarrow> c_int \<Rightarrow> espeak_entry_t" where
  "entry c a v b l = \<lparr>cmd = c, adjust = a, entry_value = v, entry_buf = b, entry_len = l\<rparr>"

text \<open>
  Queue entries: raise the rate by 2, speak the five characters at address 500, set the
  voice, and an entry whose tag is none of the seven.
\<close>

definition rate_up :: espeak_entry_t where
  "rate_up = entry CMD_SET_RATE ADJ_INC 2 0 0"

definition hello :: espeak_entry_t where
  "hello = entry CMD_SPEAK_TEXT ADJ_SET 0 500 5"

definition voice_cmd :: espeak_entry_t where
  "voice_cmd = entry CMD_SET_VOICE ADJ_SET 0 0 0"

definition unknown_cmd :: espeak_entry_t where
  "unknown_cmd = entry (CMD_OTHER 7) ADJ_SET 0 0 0"

text \<open>The start-up state with two commands queued.\<close>

definition world_q :: world where
  "world_q = world0\<lparr>queue := [(100, rate_up), (101, hello)]\<rparr>"

text \<open>The same state once a stop has been requested.\<close>

definition world_stop :: world where
  "world_stop = world_q\<lparr>runner_must_stop := True\<rparr>"

text \<open>The start-up state with a voice command queued, and with the unknown entry queued.\<close>

definition world_voice :: world where
  "world_voice = world0\<lparr>queue := [(100, voice_cmd)]\<rparr>"

definition world_unknown :: world where
  "world_unknown = world0\<lparr>queue := [(100, unknown_cmd)]\<rparr>"

text \<open>The start-up state with a voice command and then a text queued.\<close>

definition world_voice_q :: world where
  "world_voice_q = world0\<lparr>queue := [(100, voice_cmd), (101, hello)]\<rparr>"

text \<open>An engine that is busy at its first call and accepts every later one.\<close>

definition engine_busy_once :: engine where
  "engine_busy_once history c = (if history = [] then EE_BUFFER_FULL else EE_OK)"

text \<open>A sink with room for \<open>n\<close> samples that takes all it is offered.\<close>

definition room :: "bool \<Rightarrow> int \<Rightarrow> pcm_poll" where
  "room s n = \<lparr>stop_arrives = s, avail_update = n, writei = (\<lambda>k. k)\<rparr>"

text \<open>
  Two passes of a sink that has room for 64 samples; the worker's stop arrives between the
  first pass and the second.
\<close>

definition two_polls :: "pcm_poll list" where
  "two_polls = [room False 64, room True 64]"

section \<open>Properties\<close>

subsection \<open>What each function does, in one equation\<close>

lemmas engine_defs = engine_request_def espeak_SetParameter_def espeak_SetVoiceByName_def
  espeak_Synth_def espeak_Cancel_def

text \<open>Negate for a decrement, then add the stored value unless the command is absolute.\<close>

lemma adjusted_value:
  "(if adj \<noteq> ADJ_SET then (if adj = ADJ_DEC then - x else x) + v
    else (if adj = ADJ_DEC then - x else x)) = logical_value adj v x"
  by (cases adj) simp_all

lemma set_frequency_eq:
  "set_frequency eng w x adj =
     (let v = logical_value adj (frequency (synth w)) x;
          c = Call_SetParameter espeakRANGE (v * 11) 0;
          rc = eng (calls w) c
      in (rc, w\<lparr>calls := calls w @ [c],
                 synth := if rc = EE_OK then (synth w)\<lparr>frequency := v\<rparr> else synth w\<rparr>))"
  unfolding set_frequency_def Let_def adjusted_value
  by (simp add: engine_defs frequencyMultiplier_def)

lemma set_pitch_eq:
  "set_pitch eng w x adj =
     (let v = logical_value adj (pitch (synth w)) x;
          c = Call_SetParameter espeakPITCH (v * 11) 0;
          rc = eng (calls w) c
      in (rc, w\<lparr>calls := calls w @ [c],
                 synth := if rc = EE_OK then (synth w)\<lparr>pitch := v\<rparr> else synth w\<rparr>))"
  unfolding set_pitch_def Let_def adjusted_value
  by (simp add: engine_defs pitchMultiplier_def)

lemma set_punctuation_eq:
  "set_punctuation eng w x adj =
     (let v = logical_value adj (punct (synth w)) x;
          c = Call_SetParameter espeakPUNCTUATION v 0;
          rc = eng (calls w) c
      in (rc, w\<lparr>calls := calls w @ [c],
                 synth := if rc = EE_OK then (synth w)\<lparr>punct := v\<rparr> else synth w\<rparr>))"
  unfolding set_punctuation_def Let_def adjusted_value
  by (simp add: engine_defs)

lemma set_rate_eq:
  "set_rate eng w x adj =
     (let v = logical_value adj (rate (synth w)) x;
          c = Call_SetParameter espeakRATE (v * 34 + 84) 0;
          rc = eng (calls w) c
      in (rc, w\<lparr>calls := calls w @ [c],
                 synth := if rc = EE_OK then (synth w)\<lparr>rate := v\<rparr> else synth w\<rparr>))"
  unfolding set_rate_def Let_def adjusted_value
  by (simp add: engine_defs rateMultiplier_def rateOffset_def)

lemma set_volume_eq:
  "set_volume eng w x adj =
     (let v = logical_value adj (volume (synth w)) x;
          c = Call_SetParameter espeakVOLUME ((v + 1) * 22) 0;
          rc = eng (calls w) c
      in (rc, w\<lparr>calls := calls w @ [c],
                 synth := if rc = EE_OK then (synth w)\<lparr>volume := v\<rparr> else synth w\<rparr>))"
  unfolding set_volume_def Let_def adjusted_value
  by (simp add: engine_defs volumeMultiplier_def)

lemma set_voice_eq:
  "set_voice eng w name =
     (let c = Call_SetVoiceByName name;
          rc = eng (calls w) c
      in (rc, w\<lparr>calls := calls w @ [c],
                 synth := if rc = EE_OK then (synth w)\<lparr>voice := name\<rparr> else synth w\<rparr>))"
  by (simp add: set_voice_def engine_defs Let_def)

lemma speak_text_eq:
  "speak_text eng w =
     (let c = Call_Synth (buf (synth w)) (len (synth w) + 1)
      in (eng (calls w) c, w\<lparr>stopped := False, calls := calls w @ [c]\<rparr>))"
  by (simp add: speak_text_def engine_defs Let_def)

lemma stop_speech_eq:
  "stop_speech eng w =
     (eng (calls w) Call_Cancel, w\<lparr>stopped := True, calls := calls w @ [Call_Cancel]\<rparr>)"
  by (simp add: stop_speech_def engine_defs)

lemmas setter_eqs = set_frequency_eq set_pitch_eq set_punctuation_eq set_rate_eq set_volume_eq

text \<open>The \<^verbatim>\<open>switch\<close> never touches the queue, and assigns \<^verbatim>\<open>error\<close> on the seven named tags.\<close>

lemma switch_queue: "queue (snd (queue_process_entry_switch eng w current)) = queue w"
  by (cases "cmd current")
     (simp_all add: queue_process_entry_switch_def setter_eqs speak_text_eq Let_def)

lemma switch_handled:
  assumes "\<forall>k. cmd current \<noteq> CMD_OTHER k"
  shows "\<exists>error. fst (queue_process_entry_switch eng w current) = Some error"
  using assms
  by (cases "cmd current")
     (simp_all add: queue_process_entry_switch_def setter_eqs speak_text_eq Let_def)

lemmas process_defs = queue_peek_def queue_process_entry_def queue_process_entry_switch_def
  queue_remove_def

lemmas fixture_defs = world_q_def world0_def rate_up_def hello_def voice_cmd_def unknown_cmd_def
  entry_def engine_ok_def engine_fail_def world_stop_def world_voice_def world_unknown_def
  engine_busy_once_def world_voice_q_def

text \<open>
  Draining: one turn of the loop of \<^verbatim>\<open>queue_clear\<close> frees what \<open>released\<close> lists and
  changes nothing but the queue and the log of frees; the whole loop empties the queue.
\<close>

lemma drain_step_frees:
  "frees (queue_remove (free_entry e w)) = frees w @ released e"
  by (simp add: queue_remove_def free_entry_def released_def Let_def)

lemma drain_step_frame:
  "(queue_remove (free_entry e w))\<lparr>queue := q, frees := f\<rparr> = w\<lparr>queue := q, frees := f\<rparr>"
  by (simp add: queue_remove_def free_entry_def Let_def)

lemma queue_clear_eq:
  "queue w = q \<Longrightarrow>
   queue_clear w = w\<lparr>queue := [], frees := frees w @ concat (map released q)\<rparr>"
proof (induction q arbitrary: w)
  case Nil
  then show ?case
    by (subst queue_clear.simps) (simp add: queue_peek_def)
next
  case (Cons e q)
  let ?w1 = "queue_remove (free_entry e w)"
  have q1: "queue ?w1 = q"
    using Cons.prems by (simp add: queue_remove_def free_entry_def Let_def)
  have "queue_clear w = queue_clear ?w1"
    using Cons.prems by (subst queue_clear.simps) (simp add: queue_peek_def)
  also have "\<dots> = ?w1\<lparr>queue := [], frees := frees ?w1 @ concat (map released q)\<rparr>"
    by (rule Cons.IH [OF q1])
  also have "\<dots> = w\<lparr>queue := [], frees := frees w @ concat (map released (e # q))\<rparr>"
    by (simp only: drain_step_frame drain_step_frees) simp
  finally show ?case .
qed

lemma count_released:
  "count_list (concat (map released q)) a =
     length (filter (\<lambda>e. cmd (snd e) = CMD_SPEAK_TEXT \<and> entry_buf (snd e) = a) q) +
     length (filter (\<lambda>e. fst e = a) q)"
  by (induction q) (auto simp: released_def)

text \<open>
  The write loop of the callback: its log of writes, what it does to \<^verbatim>\<open>stopped\<close>, and
  when it returns.
\<close>

lemma write_sizes_append: "write_sizes (xs @ ys) = write_sizes xs @ write_sizes ys"
  by (induction xs rule: write_sizes.induct) simp_all

lemma int_of_long_id: "- (2 ^ 31) \<le> x \<Longrightarrow> x < 2 ^ 31 \<Longrightarrow> int_of_long x = x"
  by (simp add: int_of_long_def)

lemma same_but_stopped_pcm:
  assumes "w\<lparr>stopped := b\<rparr> = v\<lparr>stopped := b\<rparr>"
  shows "pcm w = pcm v"
proof -
  have "pcm (w\<lparr>stopped := b\<rparr>) = pcm (v\<lparr>stopped := b\<rparr>)"
    by (simp only: assms)
  then show ?thesis by simp
qed

lemma same_but_stopped_pcm_upd:
  assumes "w\<lparr>stopped := b\<rparr> = v\<lparr>stopped := b\<rparr>"
  shows "(w\<lparr>pcm := X\<rparr>)\<lparr>stopped := b\<rparr> = (v\<lparr>pcm := X\<rparr>)\<lparr>stopped := b\<rparr>"
  using assms by (cases w; cases v) simp

text \<open>One pass of the loop, with its local variables named.\<close>

lemma alsa_play_loop_pass:
  assumes "w0 = (if stop_arrives r then w\<lparr>stopped := True\<rparr> else w)"
    and "avail = int_of_long (avail_update r)"
    and "to_write = minimum (minimum avail 64) n"
    and "samples_written = int_of_long (writei r to_write)"
    and "w1 = w0\<lparr>pcm := pcm w0 @ [Pcm_writei a to_write]\<rparr>"
  shows "alsa_play_loop (r # rs) w n a =
     (if n > 0 then
        (if avail \<le> 0 then alsa_play_loop rs w0 n a
         else if samples_written < 0
              then alsa_play_loop rs (w1\<lparr>pcm := pcm w1 @ [Pcm_prepare]\<rparr>) n a
              else alsa_play_loop rs w1 (n - samples_written) (a + samples_written))
      else Some w)"
  by (simp add: Let_def assms)

lemma loop_ignores_stopped:
  "w\<lparr>stopped := b\<rparr> = v\<lparr>stopped := b\<rparr> \<Longrightarrow>
   map_option (\<lambda>u. u\<lparr>stopped := b\<rparr>) (alsa_play_loop rs w n a) =
   map_option (\<lambda>u. u\<lparr>stopped := b\<rparr>) (alsa_play_loop (undisturbed rs) v n a)"
proof (induction rs arbitrary: w v n a)
  case Nil
  then show ?case by (simp add: undisturbed_def)
next
  case (Cons r rs)
  define w0 where "w0 = (if stop_arrives r then w\<lparr>stopped := True\<rparr> else w)"
  have r0: "w0\<lparr>stopped := b\<rparr> = v\<lparr>stopped := b\<rparr>"
    using Cons.prems by (simp add: w0_def)
  have p0: "pcm w0 = pcm v"
    by (rule same_but_stopped_pcm [OF r0])
  define avail where "avail = int_of_long (avail_update r)"
  define to_write where "to_write = minimum (minimum avail 64) n"
  define sw where "sw = int_of_long (writei r to_write)"
  define w1 where "w1 = w0\<lparr>pcm := pcm w0 @ [Pcm_writei a to_write]\<rparr>"
  define v1 where "v1 = v\<lparr>pcm := pcm v @ [Pcm_writei a to_write]\<rparr>"
  have r1: "w1\<lparr>stopped := b\<rparr> = v1\<lparr>stopped := b\<rparr>"
    unfolding w1_def v1_def p0 by (rule same_but_stopped_pcm_upd [OF r0])
  have p1: "pcm w1 = pcm v1"
    by (rule same_but_stopped_pcm [OF r1])
  have r2: "(w1\<lparr>pcm := pcm w1 @ [Pcm_prepare]\<rparr>)\<lparr>stopped := b\<rparr>
            = (v1\<lparr>pcm := pcm v1 @ [Pcm_prepare]\<rparr>)\<lparr>stopped := b\<rparr>"
    unfolding p1 by (rule same_but_stopped_pcm_upd [OF r1])
  have left: "alsa_play_loop (r # rs) w n a =
     (if n > 0 then
        (if avail \<le> 0 then alsa_play_loop rs w0 n a
         else if sw < 0
              then alsa_play_loop rs (w1\<lparr>pcm := pcm w1 @ [Pcm_prepare]\<rparr>) n a
              else alsa_play_loop rs w1 (n - sw) (a + sw))
      else Some w)"
    by (rule alsa_play_loop_pass [OF w0_def avail_def to_write_def sw_def w1_def])
  have right: "alsa_play_loop (undisturbed (r # rs)) v n a =
     (if n > 0 then
        (if avail \<le> 0 then alsa_play_loop (undisturbed rs) v n a
         else if sw < 0
              then alsa_play_loop (undisturbed rs) (v1\<lparr>pcm := pcm v1 @ [Pcm_prepare]\<rparr>) n a
              else alsa_play_loop (undisturbed rs) v1 (n - sw) (a + sw))
      else Some v)"
    by (simp add: Let_def v1_def to_write_def sw_def avail_def undisturbed_def)
  show ?case
    unfolding left right
    using Cons.IH [OF r0] Cons.IH [OF r1] Cons.IH [OF r2] Cons.prems
    by (simp del: alsa_play_loop.simps)
qed

lemma minimum_le: "minimum x y \<le> x" "minimum x y \<le> y"
  by (simp_all add: minimum_def)

lemma loop_keeps_stopped:
  "alsa_play_loop rs w n a = Some w' \<Longrightarrow> stopped w \<Longrightarrow> stopped w'"
  by (induction rs arbitrary: w n a) (auto simp: Let_def split: if_splits)

text \<open>
  The writes of the loop, in order, pair off with the passes that reported room, in order:
  each write offers at most 64 samples, at most what is left to write, and at most the
  room reported at its pass.
\<close>

lemma loop_writes:
  "alsa_play_loop rs w n a = Some w' \<Longrightarrow>
   \<exists>ks m. write_sizes (pcm w') = write_sizes (pcm w) @ ks \<and>
     list_all2 (\<lambda>k r. 0 < k \<and> k \<le> 64 \<and> k \<le> n \<and> k \<le> int_of_long (avail_update r)) ks
       (take m (filter (\<lambda>r. 0 < int_of_long (avail_update r)) rs))"
proof (induction rs arbitrary: w n a)
  case Nil
  then show ?case by (auto split: if_splits)
next
  case (Cons r rs)
  let ?P = "\<lambda>n k r. 0 < k \<and> k \<le> 64 \<and> k \<le> n \<and> k \<le> int_of_long (avail_update r)"
  let ?room = "\<lambda>r. 0 < int_of_long (avail_update r)"
  define w0 where "w0 = (if stop_arrives r then w\<lparr>stopped := True\<rparr> else w)"
  define avail where "avail = int_of_long (avail_update r)"
  define t where "t = minimum (minimum avail 64) n"
  define sw where "sw = int_of_long (writei r t)"
  define w1 where "w1 = w0\<lparr>pcm := pcm w0 @ [Pcm_writei a t]\<rparr>"
  note pass = alsa_play_loop_pass [OF w0_def avail_def t_def sw_def w1_def, of rs]
  have p0: "pcm w0 = pcm w"
    by (simp add: w0_def)
  show ?case
  proof (cases "n > 0")
    case False
    with Cons.prems have "w' = w" by simp
    then have "write_sizes (pcm w') = write_sizes (pcm w) @ [] \<and>
        list_all2 (?P n) [] (take 0 (filter ?room (r # rs)))" by simp
    then show ?thesis by blast
  next
    case n: True
    show ?thesis
    proof (cases "avail \<le> 0")
      case True
      with n Cons.prems pass have "alsa_play_loop rs w0 n a = Some w'" by simp
      from Cons.IH [OF this] obtain ks m where
        "write_sizes (pcm w') = write_sizes (pcm w0) @ ks"
        "list_all2 (?P n) ks (take m (filter ?room rs))" by blast
      with True p0 have "write_sizes (pcm w') = write_sizes (pcm w) @ ks \<and>
          list_all2 (?P n) ks (take m (filter ?room (r # rs)))"
        by (simp add: avail_def)
      then show ?thesis by blast
    next
      case av: False
      have t: "?P n t r"
        using n av by (auto simp: t_def minimum_def avail_def)
      have p1: "write_sizes (pcm w1) = write_sizes (pcm w) @ [t]"
        by (simp add: w1_def p0 write_sizes_append)
      have "\<exists>v m. alsa_play_loop rs v m (a + (if sw < 0 then 0 else sw)) = Some w' \<and> m \<le> n \<and>
              write_sizes (pcm v) = write_sizes (pcm w) @ [t]"
      proof (cases "sw < 0")
        case True
        with n av Cons.prems pass
        have "alsa_play_loop rs (w1\<lparr>pcm := pcm w1 @ [Pcm_prepare]\<rparr>) n a = Some w'" by simp
        with True p1 show ?thesis
          by (intro exI [of _ "w1\<lparr>pcm := pcm w1 @ [Pcm_prepare]\<rparr>"] exI [of _ n])
             (simp add: write_sizes_append)
      next
        case False
        with n av Cons.prems pass
        have "alsa_play_loop rs w1 (n - sw) (a + sw) = Some w'" by simp
        with False p1 show ?thesis
          by (intro exI [of _ w1] exI [of _ "n - sw"]) simp
      qed
      then obtain v m b where v: "alsa_play_loop rs v m b = Some w'" and m: "m \<le> n"
        and pv: "write_sizes (pcm v) = write_sizes (pcm w) @ [t]" by blast
      from Cons.IH [OF v] obtain ks j where
        ks: "write_sizes (pcm w') = write_sizes (pcm v) @ ks"
        and all: "list_all2 (?P m) ks (take j (filter ?room rs))" by blast
      from all m have "list_all2 (?P n) ks (take j (filter ?room rs))"
        by (auto elim!: list_all2_mono)
      with t av have "list_all2 (?P n) (t # ks) (take (Suc j) (filter ?room (r # rs)))"
        by (simp add: avail_def)
      moreover from ks pv have "write_sizes (pcm w') = write_sizes (pcm w) @ (t # ks)"
        by simp
      ultimately show ?thesis by blast
    qed
  qed
qed

text \<open>
  A sink that reports room for at least \<open>c\<close> samples at every pass and takes all it is
  offered: the loop returns once \<open>n\<close> samples are written.
\<close>

lemma loop_returns:
  "0 < c \<Longrightarrow> c \<le> 64 \<Longrightarrow>
   \<forall>r\<in>set rs. c \<le> avail_update r \<and> avail_update r < 2 ^ 31 \<and> (\<forall>k. writei r k = k) \<Longrightarrow>
   n \<le> c * int (length rs) \<Longrightarrow>
   \<exists>w'. alsa_play_loop rs w n a = Some w' \<and>
        sum_list (write_sizes (pcm w')) = sum_list (write_sizes (pcm w)) + max 0 n"
proof (induction rs arbitrary: w n a)
  case Nil
  then show ?case by simp
next
  case (Cons r rs)
  show ?case
  proof (cases "n > 0")
    case False
    then show ?thesis by simp
  next
    case True
    define w0 where "w0 = (if stop_arrives r then w\<lparr>stopped := True\<rparr> else w)"
    define avail where "avail = int_of_long (avail_update r)"
    define t where "t = minimum (minimum avail 64) n"
    define sw where "sw = int_of_long (writei r t)"
    define w1 where "w1 = w0\<lparr>pcm := pcm w0 @ [Pcm_writei a t]\<rparr>"
    note pass = alsa_play_loop_pass [OF w0_def avail_def t_def sw_def w1_def, of rs]
    have "c \<le> avail_update r" "avail_update r < 2 ^ 31"
      using Cons.prems(3) by simp_all
    with Cons.prems(1) have av: "c \<le> avail"
      by (simp add: avail_def int_of_long_id)
    have t: "1 \<le> t" "t \<le> n" "t \<le> 64" "t = n \<or> c \<le> t"
      using av True Cons.prems(1,2) by (auto simp add: t_def minimum_def)
    have "writei r t = t"
      using Cons.prems(3) by simp
    with t have sw: "sw = t"
      by (simp add: sw_def int_of_long_id)
    have step: "alsa_play_loop (r # rs) w n a = alsa_play_loop rs w1 (n - t) (a + t)"
      using True av t Cons.prems(1) pass by (simp add: sw)
    have "0 \<le> c * int (length rs)"
      using Cons.prems(1) by simp
    moreover have "n \<le> c * int (length rs) + c"
      using Cons.prems(4) by (simp add: algebra_simps)
    ultimately have "n - t \<le> c * int (length rs)"
      using t(4) by auto
    with Cons.IH [of "n - t" w1 "a + t"] Cons.prems(1,2,3)
    obtain w' where w': "alsa_play_loop rs w1 (n - t) (a + t) = Some w'"
      and s: "sum_list (write_sizes (pcm w')) = sum_list (write_sizes (pcm w1)) + max 0 (n - t)"
      by auto
    have "sum_list (write_sizes (pcm w1)) = sum_list (write_sizes (pcm w)) + t"
      by (simp add: w1_def w0_def write_sizes_append)
    with s t True have "sum_list (write_sizes (pcm w')) = sum_list (write_sizes (pcm w)) + max 0 n"
      by simp
    with w' step show ?thesis by simp
  qed
qed

text \<open>
  While the loop has not returned, it has used every pass of the script so far, and the
  flag is set exactly if it was set before or a stop arrived at one of those passes.
\<close>

lemma loop_pending:
  "alsa_play_loop rs1 w n a = None \<Longrightarrow>
   \<exists>u m b. alsa_play_loop (rs1 @ rs2) w n a = alsa_play_loop rs2 u m b \<and>
           (stopped u \<longleftrightarrow> stopped w \<or> (\<exists>r\<in>set rs1. stop_arrives r))"
proof (induction rs1 arbitrary: w n a)
  case Nil
  then show ?case by auto
next
  case (Cons r rs1)
  define w0 where "w0 = (if stop_arrives r then w\<lparr>stopped := True\<rparr> else w)"
  define avail where "avail = int_of_long (avail_update r)"
  define t where "t = minimum (minimum avail 64) n"
  define sw where "sw = int_of_long (writei r t)"
  define w1 where "w1 = w0\<lparr>pcm := pcm w0 @ [Pcm_writei a t]\<rparr>"
  note pass = alsa_play_loop_pass [OF w0_def avail_def t_def sw_def w1_def]
  have s0: "stopped w0 \<longleftrightarrow> stopped w \<or> stop_arrives r"
    by (simp add: w0_def)
  have n: "n > 0"
    using Cons.prems by (cases "n > 0") simp_all
  consider (poll) "avail \<le> 0" | (fail) "\<not> avail \<le> 0" "sw < 0" | (wrote) "\<not> avail \<le> 0" "\<not> sw < 0"
    by blast
  then show ?case
  proof cases
    case poll
    with n Cons.prems pass [of rs1] have "alsa_play_loop rs1 w0 n a = None" by simp
    from Cons.IH [OF this] obtain u m b where
      "alsa_play_loop (rs1 @ rs2) w0 n a = alsa_play_loop rs2 u m b"
      "stopped u \<longleftrightarrow> stopped w0 \<or> (\<exists>r\<in>set rs1. stop_arrives r)" by blast
    with n poll pass [of "rs1 @ rs2"] s0 show ?thesis by auto
  next
    case fail
    let ?v = "w1\<lparr>pcm := pcm w1 @ [Pcm_prepare]\<rparr>"
    from fail n Cons.prems pass [of rs1] have "alsa_play_loop rs1 ?v n a = None" by simp
    from Cons.IH [OF this] obtain u m b where
      "alsa_play_loop (rs1 @ rs2) ?v n a = alsa_play_loop rs2 u m b"
      "stopped u \<longleftrightarrow> stopped ?v \<or> (\<exists>r\<in>set rs1. stop_arrives r)" by blast
    moreover have "stopped ?v \<longleftrightarrow> stopped w \<or> stop_arrives r"
      by (simp add: w1_def s0)
    ultimately show ?thesis
      using n fail pass [of "rs1 @ rs2"] by auto
  next
    case wrote
    with n Cons.prems pass [of rs1]
    have "alsa_play_loop rs1 w1 (n - sw) (a + sw) = None" by simp
    from Cons.IH [OF this] obtain u m b where
      "alsa_play_loop (rs1 @ rs2) w1 (n - sw) (a + sw) = alsa_play_loop rs2 u m b"
      "stopped u \<longleftrightarrow> stopped w1 \<or> (\<exists>r\<in>set rs1. stop_arrives r)" by blast
    moreover have "stopped w1 \<longleftrightarrow> stopped w \<or> stop_arrives r"
      by (simp add: w1_def s0)
    ultimately show ?thesis
      using n wrote pass [of "rs1 @ rs2"] by auto
  qed
qed

text \<open>The entry section is the beginning of the callback.\<close>

lemma alsa_play_callback_entry:
  "alsa_play_callback state rs w n =
     (case alsa_play_callback_check w of
        (True, u) \<Rightarrow> Some (1, u)
      | (False, u) \<Rightarrow>
          (case alsa_play_loop rs
                  (if state \<noteq> SND_PCM_STATE_RUNNING then u\<lparr>pcm := pcm u @ [Pcm_prepare]\<rparr> else u)
                  n 0 of
             None \<Rightarrow> None
           | Some w2 \<Rightarrow> Some (0, w2)))"
  by (simp add: alsa_play_callback_def alsa_play_callback_check_def Let_def)

text \<open>
  Entry sections of the callback change the flag and the sink's log only, and after one
  of them the flag is clear.
\<close>

lemma checks_frame:
  "queue (checks k w) = queue w" "calls (checks k w) = calls w"
  "runner_must_stop (checks k w) = runner_must_stop w"
  "stop_acknowledged (checks k w) = stop_acknowledged w"
  "frees (checks k w) = frees w" "synth (checks k w) = synth w"
  by (induction k arbitrary: w) (simp_all add: alsa_play_callback_check_def)

lemma checks_stopped: "stopped (checks k w) \<longleftrightarrow> stopped w \<and> k = 0"
proof (induction k arbitrary: w)
  case 0
  show ?case by simp
next
  case (Suc k)
  have "\<not> stopped (snd (alsa_play_callback_check w))"
    by (simp add: alsa_play_callback_check_def)
  with Suc.IH [of "snd (alsa_play_callback_check w)"] show ?case by simp
qed

lemma stop_beside_alone: "espeak_thread_stop_beside eng 0 0 0 w = espeak_thread_stop eng w"
  by (simp add: espeak_thread_stop_beside_def espeak_thread_stop_def stop_speech_def Let_def)

lemmas sink_defs = two_polls_def room_def minimum_def int_of_long_def

subsection \<open>Relative and absolute adjustment\<close>



subsection \<open>Peek, execute, then remove\<close>

text \<open>
  Claim C5, as stated, has the head never removed before it has been confirmed applied.
  With a voice command at the head and an engine that rejects every call, the head is
  removed with nothing applied: no call was made and the settings are those of \<open>world0\<close>.
\<close>

theorem head_removed_without_being_applied:
  "queue_process_entry engine_fail world_voice_q = Inr (world0\<lparr>queue := [(101, hello)]\<rparr>)"
  by (simp add: process_defs fixture_defs)

text \<open>
  Claim C5, amended. For a command at the head of the queue with one of the seven tags
  that the \<^verbatim>\<open>switch\<close> names, \<^verbatim>\<open>queue_process_entry\<close> peeks, executes with the head
  still in the queue, and removes the head exactly when the result \<^verbatim>\<open>error\<close> is
  \<^verbatim>\<open>EE_OK\<close>: after a failed execution the queue is unchanged. For the parameter
  commands and for a text, \<^verbatim>\<open>error\<close> is the engine's answer to the one call just made,
  so the head is removed only once the engine has accepted it. For the voice command
  \<^verbatim>\<open>error\<close> is the constant \<^verbatim>\<open>EE_OK\<close> and nothing is executed, so the head is removed
  without having been applied.
\<close>

theorem peek_then_conditionally_remove:
  assumes "queue_peek w = Some (p, current)" and "\<forall>k. cmd current \<noteq> CMD_OTHER k"
  shows "\<exists>error w1. queue_process_entry_switch eng w current = (Some error, w1) \<and>
           queue w1 = queue w \<and>
           queue_process_entry eng w =
             Inr (if error = EE_OK then w1\<lparr>queue := tl (queue w)\<rparr> else w1) \<and>
           (if cmd current = CMD_SET_VOICE then error = EE_OK \<and> w1 = w
            else \<exists>c. calls w1 = calls w @ [c] \<and> error = eng (calls w) c)"
proof -
  obtain error where e: "fst (queue_process_entry_switch eng w current) = Some error"
    using switch_handled [OF assms(2)] by blast
  define w1 where "w1 = snd (queue_process_entry_switch eng w current)"
  have sw: "queue_process_entry_switch eng w current = (Some error, w1)"
    using e by (simp add: w1_def prod_eq_iff)
  have q: "queue w1 = queue w"
    by (simp add: w1_def switch_queue)
  have r: "queue_process_entry eng w =
          Inr (if error = EE_OK then w1\<lparr>queue := tl (queue w)\<rparr> else w1)"
    using assms(1) sw q by (simp add: queue_process_entry_def queue_remove_def)
  have "if cmd current = CMD_SET_VOICE then error = EE_OK \<and> w1 = w
        else \<exists>c. calls w1 = calls w @ [c] \<and> error = eng (calls w) c"
    using sw assms(2)
    by (cases "cmd current")
       (auto simp: queue_process_entry_switch_def setter_eqs speak_text_eq Let_def)
  with sw q r show ?thesis by blast
qed

text \<open>
  At \<open>world_q\<close> the head raises the rate by 2: an engine that rejects the call leaves both
  commands queued, an engine that accepts it leaves only the second.
\<close>

theorem peek_then_conditionally_remove_witness:
  "queue_peek world_q = Some (100, rate_up) \<and> (\<forall>k. cmd rate_up \<noteq> CMD_OTHER k) \<and>
   queue_process_entry engine_fail world_q
     = Inr (world_q\<lparr>calls := [Call_SetParameter espeakRATE 322 0]\<rparr>) \<and>
   queue_process_entry engine_ok world_q
     = Inr (world_q\<lparr>calls := [Call_SetParameter espeakRATE 322 0],
                    synth := (synth world_q)\<lparr>rate := 7\<rparr>, queue := [(101, hello)]\<rparr>) \<and>
   queue_peek world_voice_q = Some (100, voice_cmd) \<and> (\<forall>k. cmd voice_cmd \<noteq> CMD_OTHER k) \<and>
   queue_process_entry engine_ok world_voice_q = Inr (world0\<lparr>queue := [(101, hello)]\<rparr>)"
  using peek_then_conditionally_remove [of world_q 100 rate_up engine_fail]
    peek_then_conditionally_remove [of world_q 100 rate_up engine_ok]
    peek_then_conditionally_remove [of world_voice_q 100 voice_cmd engine_ok]
  by (simp add: process_defs setter_eqs Let_def fixture_defs)

subsection \<open>A parameter is committed only when the engine accepts it\<close>

text \<open>
  Claim C4. Processing a parameter command at the head of the queue makes exactly one
  engine call \<open>c\<close>. When the engine accepts it, the store holds the new logical value (the
  engine was given the converted one) and the head is removed. When the engine rejects
  it, the store is what it was, the queue is what it was, so the same command is at the
  head, and the next attempt makes the identical call \<open>c\<close> again.
\<close>

theorem apply_commits_on_success_only:
  assumes "queue_peek w = Some (p, current)"
    and "stored_parameter (cmd current) (synth w) = Some v"
  shows "\<exists>c w'. queue_process_entry eng w = Inr w' \<and> calls w' = calls w @ [c] \<and>
           (if eng (calls w) c = EE_OK
            then stored_parameter (cmd current) (synth w')
                   = Some (logical_value (adjust current) v (entry_value current)) \<and>
                 queue w' = tl (queue w)
            else synth w' = synth w \<and> queue w' = queue w \<and>
                 queue_peek w' = Some (p, current) \<and>
                 (\<exists>w''. queue_process_entry eng w' = Inr w'' \<and> calls w'' = calls w @ [c, c]))"
  using assms
  by (cases "cmd current")
     (auto simp add: process_defs setter_eqs Let_def split: list.splits)

text \<open>
  An engine that is busy once: the first attempt changes nothing but the log of calls, the
  second attempt makes the same call, stores the rate 7 (not the 322 that the engine was
  given) and removes the head.
\<close>

theorem apply_commits_on_success_only_witness:
  "queue_peek world_q = Some (100, rate_up) \<and>
   stored_parameter (cmd rate_up) (synth world_q) = Some 5 \<and>
   queue_process_entry engine_busy_once world_q
     = Inr (world_q\<lparr>calls := [Call_SetParameter espeakRATE 322 0]\<rparr>) \<and>
   queue_process_entry engine_busy_once (world_q\<lparr>calls := [Call_SetParameter espeakRATE 322 0]\<rparr>)
     = Inr (world_q\<lparr>calls := [Call_SetParameter espeakRATE 322 0, Call_SetParameter espeakRATE 322 0],
                    synth := (synth world_q)\<lparr>rate := 7\<rparr>, queue := [(101, hello)]\<rparr>)"
  using apply_commits_on_success_only [of world_q 100 rate_up 5 engine_busy_once]
  by (simp add: process_defs setter_eqs Let_def fixture_defs)

subsection \<open>Draining the queue\<close>

text \<open>
  Claim C9. For every queue, \<^verbatim>\<open>queue_clear\<close> leaves the queue empty and frees, in queue
  order, the text buffer of each entry tagged \<^verbatim>\<open>CMD_SPEAK_TEXT\<close> followed by the entry
  itself, and the entry alone for any other tag. So an address \<open>a\<close> is freed once for each
  queued speak-text entry whose buffer it is and once for each queued entry it is, and no
  buffer of another kind of entry is freed.
\<close>

theorem queue_clear_drains_and_frees:
  "queue (queue_clear w) = [] \<and>
   frees (queue_clear w) = frees w @ concat (map released (queue w)) \<and>
   count_list (frees (queue_clear w)) a =
     count_list (frees w) a +
     length (filter (\<lambda>e. cmd (snd e) = CMD_SPEAK_TEXT \<and> entry_buf (snd e) = a) (queue w)) +
     length (filter (\<lambda>e. fst e = a) (queue w))"
  by (simp add: queue_clear_eq [OF refl] count_released)

text \<open>
  At \<open>world_q\<close>: the rate entry 100, the text buffer 500 and its entry 101 are freed once
  each; address 0, the unused buffer field of the rate entry, is not freed.
\<close>

theorem queue_clear_drains_and_frees_witness:
  "queue (queue_clear world_q) = [] \<and> frees (queue_clear world_q) = [100, 500, 101] \<and>
   count_list (frees (queue_clear world_q)) 500 = 1 \<and>
   count_list (frees (queue_clear world_q)) 0 = 0"
  using queue_clear_drains_and_frees [of world_q 500] queue_clear_drains_and_frees [of world_q 0]
  by (simp add: released_def fixture_defs)

subsection \<open>The stop branch\<close>

text \<open>
  Claim C1, as the specification states it, asks that after the stop branch the queue be
  empty and \<^verbatim>\<open>stopped\<close> be false. The stop branch calls \<^verbatim>\<open>stop_speech\<close>, which
  stores 1 into \<^verbatim>\<open>stopped\<close>: at \<open>world_stop\<close> the flag is set afterwards.
\<close>

theorem stop_branch_leaves_stopped_set:
  "runner_must_stop world_stop \<and> stopped (espeak_thread_stop engine_ok world_stop)"
  by (simp add: espeak_thread_stop_def stop_speech_eq Let_def queue_clear_eq [OF refl]
      fixture_defs)

text \<open>
  Claim C1, amended. After the worker has found \<^verbatim>\<open>runner_must_stop\<close> set and run its
  stop branch, for every queue content, engine history and number of callback invocations
  running beside it: the queue is empty, the request flag \<^verbatim>\<open>runner_must_stop\<close> is
  cleared, the engine has been told to cancel and the acknowledgment has been signalled
  once. The stop branch does not clear \<^verbatim>\<open>stopped\<close> but sets it; at the acknowledgment
  \<^verbatim>\<open>stopped\<close> is true when no callback invocation has entered since the store, and
  false when one has, since the callback clears it.
\<close>

theorem stop_branch_effect:
  assumes "runner_must_stop w"
  shows "queue (espeak_thread_stop_beside eng j k1 k2 w) = [] \<and>
         \<not> runner_must_stop (espeak_thread_stop_beside eng j k1 k2 w) \<and>
         (stopped (espeak_thread_stop_beside eng j k1 k2 w) \<longleftrightarrow> k1 = 0 \<and> k2 = 0) \<and>
         calls (espeak_thread_stop_beside eng j k1 k2 w) = calls w @ [Call_Cancel] \<and>
         stop_acknowledged (espeak_thread_stop_beside eng j k1 k2 w) = stop_acknowledged w + 1"
  using assms
  by (simp add: espeak_thread_stop_beside_def Let_def engine_defs checks_frame checks_stopped
      queue_clear_eq [OF refl])

text \<open>
  At \<open>world_stop\<close>: with one callback entering before the store and none after, the flag
  is set at the acknowledgment; with one entering after the store, the sink has been
  dropped and the flag is clear.
\<close>

theorem stop_branch_effect_witness:
  "runner_must_stop world_stop \<and>
   espeak_thread_stop_beside engine_ok (Suc 0) 0 0 world_stop =
     world0\<lparr>stopped := True, calls := [Call_Cancel], frees := [100, 500, 101],
            stop_acknowledged := 1\<rparr> \<and>
   espeak_thread_stop_beside engine_ok 0 (Suc 0) 0 world_stop =
     world0\<lparr>pcm := [Pcm_drop], calls := [Call_Cancel], frees := [100, 500, 101],
            stop_acknowledged := 1\<rparr> \<and>
   espeak_thread_stop_beside engine_ok 0 0 0 world_stop = espeak_thread_stop engine_ok world_stop"
  using stop_branch_effect [of world_stop engine_ok "Suc 0" 0 0]
    stop_branch_effect [of world_stop engine_ok 0 "Suc 0" 0]
  by (simp add: espeak_thread_stop_beside_def espeak_thread_stop_def stop_speech_eq
      alsa_play_callback_check_def engine_defs Let_def queue_clear_eq [OF refl]
      released_def fixture_defs)

subsection \<open>The voice command\<close>

text \<open>
  Claim C2, as stated, asks that a queued voice command reach \<^verbatim>\<open>set_voice\<close> and stay
  at the head when the engine fails. With an engine that rejects every call the voice
  command is removed all the same, and no call was made: the state is \<open>world0\<close>, whose
  log of calls is empty.
\<close>

theorem voice_command_removed_without_engine_call:
  "queue_process_entry engine_fail world_voice = Inr world0"
  by (simp add: process_defs fixture_defs)

text \<open>
  Claim C2, amended. The worker treats a queued \<^verbatim>\<open>CMD_SET_VOICE\<close> as done: it removes
  the head and changes nothing else, so it makes no engine call and keeps the stored voice
  name. \<^verbatim>\<open>set_voice\<close> itself (called for the default voice at start-up) asks the engine
  for the voice by name and stores the name only when the engine accepts.
\<close>

theorem voice_command_is_skipped:
  assumes "queue_peek w = Some (p, current)" and "cmd current = CMD_SET_VOICE"
  shows "queue_process_entry eng w = Inr (w\<lparr>queue := tl (queue w)\<rparr>) \<and>
         fst (set_voice eng v name) = eng (calls v) (Call_SetVoiceByName name) \<and>
         calls (snd (set_voice eng v name)) = calls v @ [Call_SetVoiceByName name] \<and>
         voice (synth (snd (set_voice eng v name))) =
           (if fst (set_voice eng v name) = EE_OK then name else voice (synth v))"
  using assms
  by (simp add: queue_process_entry_def queue_process_entry_switch_def queue_remove_def
      set_voice_eq Let_def)

theorem voice_command_is_skipped_witness:
  "queue_peek world_voice = Some (100, voice_cmd) \<and> cmd voice_cmd = CMD_SET_VOICE \<and>
   queue_process_entry engine_ok world_voice = Inr world0 \<and>
   voice (synth (snd (set_voice engine_ok world0 ''en''))) = ''en'' \<and>
   voice (synth (snd (set_voice engine_fail world0 ''en''))) = ''default''"
  using voice_command_is_skipped [of world_voice 100 voice_cmd engine_ok world0 "''en''"]
    voice_command_is_skipped [of world_voice 100 voice_cmd engine_fail world0 "''en''"]
  by (simp add: process_defs set_voice_eq Let_def fixture_defs)

subsection \<open>From logical to native values\<close>

text \<open>
  Claim C6, as stated, gives the volume a pure multiplier with no offset, which sends
  logical 0 to native 0. \<^verbatim>\<open>set_volume\<close> passes \<^verbatim>\<open>(vol + 1) * volumeMultiplier\<close>: for
  the logical volume 0 the engine is given 22.
\<close>

theorem volume_conversion_has_offset:
  "calls (snd (set_volume engine_ok world0 0 ADJ_SET)) = [Call_SetParameter espeakVOLUME 22 0] \<and>
   calls (snd (set_volume engine_ok world0 0 ADJ_SET))
     \<noteq> [Call_SetParameter espeakVOLUME (0 * volumeMultiplier) 0]"
  by (simp add: set_volume_eq Let_def fixture_defs volumeMultiplier_def)

text \<open>
  Claim C6, amended. Each setter makes one engine call with the new logical value \<open>v\<close>
  converted by a fixed linear map: frequency \<open>v * 11\<close>, pitch \<open>v * 11\<close>, rate
  \<open>v * 34 + 84\<close>, volume \<open>(v + 1) * 22\<close>, that is \<open>v * 22 + 22\<close>, and punctuation \<open>v\<close>
  itself. Rate and volume carry an additive offset.
\<close>

theorem native_conversion:
  "calls (snd (set_frequency eng w x adj)) =
     calls w @ [Call_SetParameter espeakRANGE (logical_value adj (frequency (synth w)) x * 11) 0] \<and>
   calls (snd (set_pitch eng w x adj)) =
     calls w @ [Call_SetParameter espeakPITCH (logical_value adj (pitch (synth w)) x * 11) 0] \<and>
   calls (snd (set_rate eng w x adj)) =
     calls w @
       [Call_SetParameter espeakRATE (logical_value adj (rate (synth w)) x * 34 + 84) 0] \<and>
   calls (snd (set_volume eng w x adj)) =
     calls w @
       [Call_SetParameter espeakVOLUME (logical_value adj (volume (synth w)) x * 22 + 22) 0] \<and>
   calls (snd (set_punctuation eng w x adj)) =
     calls w @ [Call_SetParameter espeakPUNCTUATION (logical_value adj (punct (synth w)) x) 0]"
  by (simp add: setter_eqs Let_def distrib_right)

theorem native_conversion_witness:
  "calls (snd (set_frequency engine_ok world0 3 ADJ_SET)) = [Call_SetParameter espeakRANGE 33 0] \<and>
   calls (snd (set_pitch engine_ok world0 1 ADJ_DEC)) = [Call_SetParameter espeakPITCH 44 0] \<and>
   calls (snd (set_rate engine_ok world0 2 ADJ_INC)) = [Call_SetParameter espeakRATE 322 0] \<and>
   calls (snd (set_volume engine_ok world0 5 ADJ_SET)) = [Call_SetParameter espeakVOLUME 132 0] \<and>
   calls (snd (set_punctuation engine_ok world0 2 ADJ_SET))
     = [Call_SetParameter espeakPUNCTUATION 2 0]"
  using native_conversion [of engine_ok world0 3 ADJ_SET]
    native_conversion [of engine_ok world0 1 ADJ_DEC]
    native_conversion [of engine_ok world0 2 ADJ_INC]
    native_conversion [of engine_ok world0 5 ADJ_SET]
    native_conversion [of engine_ok world0 2 ADJ_SET]
  by (simp add: fixture_defs)

subsection \<open>A tag outside the seven\<close>

text \<open>
  Claim C10 asks that \<^verbatim>\<open>error\<close> be assigned before the test \<^verbatim>\<open>error == EE_OK\<close> for
  every tag. For an entry whose tag is none of the seven, the \<^verbatim>\<open>default\<close> branch
  assigns nothing, and the test reads the unassigned local.
\<close>

theorem unknown_tag_reads_unassigned_error:
  "queue_peek world_unknown = Some (100, unknown_cmd) \<and>
   queue_process_entry_switch engine_ok world_unknown unknown_cmd = (None, world_unknown) \<and>
   queue_process_entry engine_ok world_unknown = Inl Uninitialized_read"
  by (simp add: process_defs fixture_defs)

subsection \<open>The callback reads the flag once\<close>

text \<open>
  Claim C7, as stated, asks that the flag be checked between the sub-chunk writes of one
  invocation, so that a stop requested in the middle keeps the remaining sub-chunks from
  being written. The loop of \<^verbatim>\<open>alsa_play_callback\<close> never reads \<^verbatim>\<open>stopped\<close>: with 100
  samples, room for 64 at a time and the stop arriving before the second pass, the second
  sub-chunk of 36 is written, the callback returns 0 and the flag is still set.
\<close>

theorem stop_mid_invocation_does_not_stop_writes:
  "stop_arrives (two_polls ! 1) \<and>
   alsa_play_callback SND_PCM_STATE_RUNNING two_polls world0 100 =
     Some (0, world0\<lparr>pcm := [Pcm_writei 0 64, Pcm_writei 64 36], stopped := True\<rparr>)"
  by (simp add: alsa_play_callback_def sink_defs world0_def Let_def)

text \<open>
  Claim C7, amended. One invocation of the callback reads the flag once, on entry, before
  any write: if it is set, the sink is dropped, the flag cleared and 1 returned. Otherwise
  the chunk is written in sub-chunks without reading the flag again. Each sub-chunk is of
  at most 64 samples, at most the samples of the chunk, and at most the room the sink
  reported at the pass that writes it. The return value and all of the state but the flag are the same whether or
  not stops arrive during the invocation; when every pass finds room for at least \<open>c\<close>
  samples and the sink takes all it is offered, enough passes write all \<open>n\<close> samples
  and return 0. A stop that arrives while the invocation is in its loop changes nothing
  of that invocation: the flag is still set when it returns with 0, and an invocation that
  finds the flag set then (none, if \<^verbatim>\<open>speak_text\<close> has cleared it in between) is the
  one that drops the sink and returns 1.
\<close>

theorem callback_checks_stop_on_entry_only:
  "(stopped w \<longrightarrow>
      alsa_play_callback state rs w n
        = Some (1, w\<lparr>pcm := pcm w @ [Pcm_drop], stopped := False\<rparr>)) \<and>
   (\<not> stopped w \<longrightarrow>
      map_option (\<lambda>(rv, u). (rv, u\<lparr>stopped := False\<rparr>)) (alsa_play_callback state rs w n) =
      map_option (\<lambda>(rv, u). (rv, u\<lparr>stopped := False\<rparr>))
        (alsa_play_callback state (undisturbed rs) w n)) \<and>
   (alsa_play_callback state rs w n = Some (rv, w') \<longrightarrow>
      (\<exists>ks m. write_sizes (pcm w') = write_sizes (pcm w) @ ks \<and>
         list_all2 (\<lambda>k r. 0 < k \<and> k \<le> 64 \<and> k \<le> n \<and> k \<le> int_of_long (avail_update r)) ks
           (take m (filter (\<lambda>r. 0 < int_of_long (avail_update r)) rs)))) \<and>
   (\<not> stopped w \<and> 0 < c \<and> c \<le> 64 \<and>
    (\<forall>r\<in>set rs. c \<le> avail_update r \<and> avail_update r < 2 ^ 31 \<and> (\<forall>k. writei r k = k)) \<and>
    n \<le> c * int (length rs) \<longrightarrow>
      (\<exists>u. alsa_play_callback state rs w n = Some (0, u) \<and>
           sum_list (write_sizes (pcm u)) = sum_list (write_sizes (pcm w)) + max 0 n)) \<and>
   (\<not> stopped w \<and> alsa_play_callback state rs1 w n = None \<and> (\<exists>r\<in>set rs1. stop_arrives r) \<and>
    alsa_play_callback state (rs1 @ rs2) w n = Some (rv, w') \<longrightarrow>
      rv = 0 \<and> stopped w' \<and>
      alsa_play_callback state' rs' w' n'
        = Some (1, w'\<lparr>pcm := pcm w' @ [Pcm_drop], stopped := False\<rparr>))"
proof (intro conjI impI)
  assume "stopped w"
  then show "alsa_play_callback state rs w n
        = Some (1, w\<lparr>pcm := pcm w @ [Pcm_drop], stopped := False\<rparr>)"
    by (simp add: alsa_play_callback_def)
next
  assume ns: "\<not> stopped w"
  define w1 where
    "w1 = (if state \<noteq> SND_PCM_STATE_RUNNING then w\<lparr>pcm := pcm w @ [Pcm_prepare]\<rparr> else w)"
  have "map_option (\<lambda>u. u\<lparr>stopped := False\<rparr>) (alsa_play_loop rs w1 n 0) =
        map_option (\<lambda>u. u\<lparr>stopped := False\<rparr>) (alsa_play_loop (undisturbed rs) w1 n 0)"
    by (rule loop_ignores_stopped) simp
  then show "map_option (\<lambda>(rv, u). (rv, u\<lparr>stopped := False\<rparr>)) (alsa_play_callback state rs w n) =
      map_option (\<lambda>(rv, u). (rv, u\<lparr>stopped := False\<rparr>))
        (alsa_play_callback state (undisturbed rs) w n)"
    using ns
    by (cases "alsa_play_loop rs w1 n 0"; cases "alsa_play_loop (undisturbed rs) w1 n 0")
       (simp_all add: alsa_play_callback_def w1_def [symmetric] Let_def)
next
  assume r: "alsa_play_callback state rs w n = Some (rv, w')"
  let ?P = "\<lambda>k r. 0 < k \<and> k \<le> 64 \<and> k \<le> n \<and> k \<le> int_of_long (avail_update r)"
  let ?room = "\<lambda>r. 0 < int_of_long (avail_update r)"
  show "\<exists>ks m. write_sizes (pcm w') = write_sizes (pcm w) @ ks \<and>
          list_all2 ?P ks (take m (filter ?room rs))"
  proof (cases "stopped w")
    case True
    with r have "write_sizes (pcm w') = write_sizes (pcm w) @ [] \<and>
        list_all2 ?P [] (take 0 (filter ?room rs))"
      by (auto simp: alsa_play_callback_def write_sizes_append)
    then show ?thesis by blast
  next
    case False
    define w1 where
      "w1 = (if state \<noteq> SND_PCM_STATE_RUNNING then w\<lparr>pcm := pcm w @ [Pcm_prepare]\<rparr> else w)"
    have p: "write_sizes (pcm w1) = write_sizes (pcm w)"
      by (simp add: w1_def write_sizes_append)
    from r False have "alsa_play_loop rs w1 n 0 = Some w'"
      by (simp add: alsa_play_callback_def w1_def [symmetric] Let_def split: option.splits)
    from loop_writes [OF this] p show ?thesis by simp
  qed
next
  assume h: "\<not> stopped w \<and> 0 < c \<and> c \<le> 64 \<and>
    (\<forall>r\<in>set rs. c \<le> avail_update r \<and> avail_update r < 2 ^ 31 \<and> (\<forall>k. writei r k = k)) \<and>
    n \<le> c * int (length rs)"
  define w1 where
    "w1 = (if state \<noteq> SND_PCM_STATE_RUNNING then w\<lparr>pcm := pcm w @ [Pcm_prepare]\<rparr> else w)"
  from h obtain u where u: "alsa_play_loop rs w1 n 0 = Some u"
    and s: "sum_list (write_sizes (pcm u)) = sum_list (write_sizes (pcm w1)) + max 0 n"
    using loop_returns [of c rs n w1 0] by blast
  have "sum_list (write_sizes (pcm w1)) = sum_list (write_sizes (pcm w))"
    by (simp add: w1_def write_sizes_append)
  with u s h show "\<exists>u. alsa_play_callback state rs w n = Some (0, u) \<and>
           sum_list (write_sizes (pcm u)) = sum_list (write_sizes (pcm w)) + max 0 n"
    by (simp add: alsa_play_callback_def w1_def [symmetric] Let_def)
next
  assume h: "\<not> stopped w \<and> alsa_play_callback state rs1 w n = None \<and>
    (\<exists>r\<in>set rs1. stop_arrives r) \<and>
    alsa_play_callback state (rs1 @ rs2) w n = Some (rv, w')"
  define w1 where
    "w1 = (if state \<noteq> SND_PCM_STATE_RUNNING then w\<lparr>pcm := pcm w @ [Pcm_prepare]\<rparr> else w)"
  have cb: "alsa_play_callback state rs w n =
      (case alsa_play_loop rs w1 n 0 of None \<Rightarrow> None | Some w2 \<Rightarrow> Some (0, w2))" for rs
    using h by (simp add: alsa_play_callback_def w1_def Let_def)
  from h have none: "alsa_play_loop rs1 w1 n 0 = None"
    by (auto simp: cb split: option.splits)
  from h have some: "alsa_play_loop (rs1 @ rs2) w1 n 0 = Some w'" and rv: "rv = 0"
    by (auto simp: cb split: option.splits)
  from loop_pending [OF none, of rs2] h obtain u m b where
    "alsa_play_loop (rs1 @ rs2) w1 n 0 = alsa_play_loop rs2 u m b" and "stopped u"
    by auto
  with some have st: "stopped w'"
    using loop_keeps_stopped by metis
  show "rv = 0" by (rule rv)
  show "stopped w'" by (rule st)
  show "alsa_play_callback state' rs' w' n'
        = Some (1, w'\<lparr>pcm := pcm w' @ [Pcm_drop], stopped := False\<rparr>)"
    using st by (simp add: alsa_play_callback_def)
qed

text \<open>
  With 100 samples and room for 64 at a time: an invocation that finds the flag set drops
  the sink; one that finds it clear writes 64 and 36 whether or not the stop arrives
  before the second pass; and when the stop arrives at the first pass of an invocation
  that needs two, the flag is set on return and the next invocation drops the sink.
\<close>

theorem callback_checks_stop_on_entry_only_witness:
  "alsa_play_callback SND_PCM_STATE_PREPARED two_polls (world0\<lparr>stopped := True\<rparr>) 100
     = Some (1, world0\<lparr>pcm := [Pcm_drop]\<rparr>) \<and>
   \<not> stopped world0 \<and> 100 \<le> 64 * int (length two_polls) \<and>
   alsa_play_callback SND_PCM_STATE_PREPARED two_polls world0 100
     = Some (0, world0\<lparr>pcm := [Pcm_prepare, Pcm_writei 0 64, Pcm_writei 64 36],
                      stopped := True\<rparr>) \<and>
   alsa_play_callback SND_PCM_STATE_PREPARED (undisturbed two_polls) world0 100
     = Some (0, world0\<lparr>pcm := [Pcm_prepare, Pcm_writei 0 64, Pcm_writei 64 36]\<rparr>) \<and>
   write_sizes [Pcm_prepare, Pcm_writei 0 64, Pcm_writei 64 36] = [64, 36] \<and>
   alsa_play_callback SND_PCM_STATE_RUNNING [room True 64] world0 100 = None \<and>
   alsa_play_callback SND_PCM_STATE_RUNNING ([room True 64] @ [room False 64]) world0 100
     = Some (0, world0\<lparr>pcm := [Pcm_writei 0 64, Pcm_writei 64 36], stopped := True\<rparr>) \<and>
   alsa_play_callback SND_PCM_STATE_RUNNING []
       (world0\<lparr>pcm := [Pcm_writei 0 64, Pcm_writei 64 36], stopped := True\<rparr>) 5
     = Some (1, world0\<lparr>pcm := [Pcm_writei 0 64, Pcm_writei 64 36, Pcm_drop]\<rparr>)"
  using callback_checks_stop_on_entry_only
      [where w = "world0\<lparr>stopped := True\<rparr>" and state = SND_PCM_STATE_PREPARED
         and rs = two_polls and n = 100]
    callback_checks_stop_on_entry_only
      [where w = world0 and state = SND_PCM_STATE_PREPARED and rs = two_polls and n = 100
         and rv = 0 and c = 64
         and w' = "world0\<lparr>pcm := [Pcm_prepare, Pcm_writei 0 64, Pcm_writei 64 36],
                          stopped := True\<rparr>"]
    callback_checks_stop_on_entry_only
      [where w = world0 and state = SND_PCM_STATE_RUNNING and n = 100 and rv = 0
         and ?rs1.0 = "[room True 64]" and ?rs2.0 = "[room False 64]"
         and w' = "world0\<lparr>pcm := [Pcm_writei 0 64, Pcm_writei 64 36], stopped := True\<rparr>"
         and state' = SND_PCM_STATE_RUNNING and rs' = "[]" and n' = 5]
  by (simp add: alsa_play_callback_def sink_defs undisturbed_def world0_def Let_def)

subsection \<open>Who clears the flag\<close>

text \<open>
  Claim C8, as stated, has only the worker clear \<^verbatim>\<open>stopped\<close>, and not the callback.
  \<^verbatim>\<open>alsa_play_callback\<close> stores 0 into it when it finds it set.
\<close>

theorem callback_clears_stopped:
  "stopped (world0\<lparr>stopped := True\<rparr>) \<and>
   alsa_play_callback SND_PCM_STATE_RUNNING two_polls (world0\<lparr>stopped := True\<rparr>) 100
     = Some (1, world0\<lparr>pcm := [Pcm_drop]\<rparr>) \<and>
   \<not> stopped (world0\<lparr>pcm := [Pcm_drop]\<rparr>)"
  by (simp add: alsa_play_callback_def world0_def)


text \<open>
  Claim C8, amended. \<^verbatim>\<open>stopped\<close> is set by the worker's \<^verbatim>\<open>stop_speech\<close> and stays
  set through the parameter setters, \<^verbatim>\<open>set_voice\<close>, \<^verbatim>\<open>queue_clear\<close> and the write
  loop of the callback. It is cleared by the worker in \<^verbatim>\<open>speak_text\<close>, right before the
  synthesis of a queued text (the only command whose processing clears it), and by the
  audio-delivery callback, which on finding it set drops the sink, clears it and returns 1.
\<close>

theorem stopped_cleared_by_speak_text_and_callback:
  "stopped (snd (stop_speech eng w)) \<and>
   stopped (snd (set_frequency eng w x adj)) = stopped w \<and>
   stopped (snd (set_pitch eng w x adj)) = stopped w \<and>
   stopped (snd (set_punctuation eng w x adj)) = stopped w \<and>
   stopped (snd (set_rate eng w x adj)) = stopped w \<and>
   stopped (snd (set_volume eng w x adj)) = stopped w \<and>
   stopped (snd (set_voice eng w name)) = stopped w \<and>
   stopped (queue_clear w) = stopped w \<and>
   (stopped w \<and> alsa_play_loop rs w n a = Some w' \<longrightarrow> stopped w') \<and>
   \<not> stopped (snd (speak_text eng w)) \<and>
   (stopped w \<longrightarrow>
      (\<exists>u. alsa_play_callback state rs w n = Some (1, u) \<and> \<not> stopped u \<and>
           pcm u = pcm w @ [Pcm_drop])) \<and>
   (stopped w \<and> queue_process_entry eng w = Inr w' \<and> \<not> stopped w' \<longrightarrow>
      (\<exists>p current. queue_peek w = Some (p, current) \<and> cmd current = CMD_SPEAK_TEXT))"
proof (intro conjI impI)
  show "stopped w \<Longrightarrow> \<exists>u. alsa_play_callback state rs w n = Some (1, u) \<and> \<not> stopped u \<and>
           pcm u = pcm w @ [Pcm_drop]"
    by (simp add: alsa_play_callback_def)
  show "stopped w \<and> alsa_play_loop rs w n a = Some w' \<Longrightarrow> stopped w'"
    using loop_keeps_stopped by blast
  show "stopped w \<and> queue_process_entry eng w = Inr w' \<and> \<not> stopped w' \<Longrightarrow>
      \<exists>p current. queue_peek w = Some (p, current) \<and> cmd current = CMD_SPEAK_TEXT"
  proof (cases "queue w")
    case Nil
    assume "stopped w \<and> queue_process_entry eng w = Inr w' \<and> \<not> stopped w'"
    with Nil show ?thesis by (auto simp: process_defs)
  next
    case (Cons e q)
    assume "stopped w \<and> queue_process_entry eng w = Inr w' \<and> \<not> stopped w'"
    with Cons show ?thesis
      by (cases e; cases "cmd (snd e)")
         (auto simp: process_defs setter_eqs Let_def split: if_splits)
  qed
qed (simp_all add: stop_speech_eq setter_eqs set_voice_eq speak_text_eq Let_def
      queue_clear_eq [OF refl])

theorem stopped_cleared_by_speak_text_and_callback_witness:
  "stopped (world0\<lparr>stopped := True\<rparr>) \<and>
   alsa_play_callback SND_PCM_STATE_RUNNING [] (world0\<lparr>stopped := True\<rparr>) 5
     = Some (1, world0\<lparr>pcm := [Pcm_drop]\<rparr>) \<and>
   queue_process_entry engine_ok (world0\<lparr>queue := [(101, hello)], stopped := True\<rparr>)
     = Inr (world0\<lparr>synth := (synth world0)\<lparr>buf := 500, len := 5\<rparr>,
                   calls := [Call_Synth 500 6]\<rparr>) \<and>
   queue_peek (world0\<lparr>queue := [(101, hello)], stopped := True\<rparr>) = Some (101, hello) \<and>
   cmd hello = CMD_SPEAK_TEXT \<and>
   stopped (snd (set_rate engine_ok (world0\<lparr>stopped := True\<rparr>) 2 ADJ_INC))"
  using stopped_cleared_by_speak_text_and_callback [of engine_ok "world0\<lparr>stopped := True\<rparr>" 2 ADJ_INC "''en''" "[]" 5 0
      "world0\<lparr>stopped := True\<rparr>" SND_PCM_STATE_RUNNING]
    stopped_cleared_by_speak_text_and_callback [of engine_ok "world0\<lparr>queue := [(101, hello)], stopped := True\<rparr>" 2 ADJ_INC "''en''"
      "[]" 0 0
      "world0\<lparr>synth := (synth world0)\<lparr>buf := 500, len := 5\<rparr>, calls := [Call_Synth 500 6]\<rparr>"
      SND_PCM_STATE_RUNNING]
  by (simp add: alsa_play_callback_def process_defs speak_text_eq setter_eqs Let_def fixture_defs)

end
